theory Spec2Isabelle
  imports Complex_Main "HOL-Library.AList" "HOL-Library.Sublist"
begin

section \<open>JSON values and Python dictionaries\<close>

text \<open>
  The values that \<^verbatim>\<open>json.loads\<close> produces and \<^verbatim>\<open>json.dumps\<close> accepts. A Python
  \<^verbatim>\<open>dict\<close> keeps its keys in insertion order, so an object is an association list; a
  float is carried as the number it denotes, since the code only passes floats on.
\<close>

datatype json =
    JNull
  | JBool bool
  | JInt int
  | JFloat rat
  | JStr string
  | JArr "json list"
  | JObj "(string \<times> json) list"

type_synonym dict = "(string \<times> json) list"

text \<open>\<^verbatim>\<open>key in d\<close>\<close>

definition contains :: "dict \<Rightarrow> string \<Rightarrow> bool" where
  "contains d k = (map_of d k \<noteq> None)"

text \<open>\<^verbatim>\<open>d.get(key)\<close>: \<^verbatim>\<open>None\<close> of Python is \<open>None\<close> here.\<close>

definition dict_get :: "dict \<Rightarrow> string \<Rightarrow> json option" where
  "dict_get d k = map_of d k"

text \<open>
  \<^verbatim>\<open>d.setdefault(key, default)\<close>: the value now stored under the key, and the
  dictionary after the call (a missing key is inserted last).
\<close>

definition setdefault :: "string \<Rightarrow> json \<Rightarrow> dict \<Rightarrow> json \<times> dict" where
  "setdefault k v d =
     (case map_of d k of
        None \<Rightarrow> (v, d @ [(k, v)])
      | Some x \<Rightarrow> (x, d))"

text \<open>\<^verbatim>\<open>d[key] = value\<close>: an existing key keeps its place, a new one goes last.\<close>

definition setitem :: "string \<Rightarrow> json \<Rightarrow> dict \<Rightarrow> dict" where
  "setitem k v d = AList.update k v d"

text \<open>\<^verbatim>\<open>sep.join(xs)\<close>\<close>

fun join :: "string \<Rightarrow> string list \<Rightarrow> string" where
  "join sep [] = []"
| "join sep [x] = x"
| "join sep (x # y # ys) = x @ sep @ join sep (y # ys)"

text \<open>\<^verbatim>\<open>s.rstrip("/")\<close>\<close>

definition rstrip_slash :: "string \<Rightarrow> string" where
  "rstrip_slash s = rev (dropWhile (\<lambda>c. c = CHR ''/'') (rev s))"

section \<open>Exceptions\<close>

text \<open>
  Every exception the two modules raise themselves, or that a built-in raises on the
  values they handle; the last three are what \<^verbatim>\<open>urlopen\<close> raises.
\<close>

datatype error =
    ValueError string
  | RuntimeError string
  | AttributeError
  | TypeError
  | KeyError string
  | FileNotFoundError string
  | FileExistsError
  | JSONDecodeError
  | URLError
  | HTTPError int
  | TimeoutError

section \<open>The world outside the client\<close>

record request =
  req_method :: string
  req_url :: string
  req_data :: "dict option"
  req_headers :: "(string \<times> string) list"
  req_timeout :: rat

text \<open>What \<^verbatim>\<open>json.loads\<close> makes of the text of a reply.\<close>

datatype body = Parsed json | Unparsable

text \<open>
  What a file holds, as its readers see it: a text that \<^verbatim>\<open>json.loads\<close> parses to a
  document, the rows handed to a \<^verbatim>\<open>csv.writer\<close>, or anything else, which does not parse
  as JSON.
\<close>

datatype content =
    Doc json
  | Rows "json list list"
  | Other

text \<open>
  The service is a black box: \<open>urlopen\<close> maps a request and the state of the service
  to a transport failure or a reply, and the next state. \<open>str_of\<close> is the built-in
  \<^verbatim>\<open>str\<close> on values that are not strings, \<open>format_2f\<close> the format \<^verbatim>\<open>:.2f\<close>, and
  \<open>checkout\<close> the directory that holds \<^verbatim>\<open>examples/\<close> and \<^verbatim>\<open>public/\<close>.
\<close>

record 's platform =
  urlopen :: "request \<Rightarrow> 's \<Rightarrow> (error + body) \<times> 's"
  str_of :: "json \<Rightarrow> string"
  format_2f :: "rat \<Rightarrow> string"
  checkout :: string

text \<open>
  \<open>files\<close> are the files the program reads and writes, by path; the service has its
  own state and leaves them alone. \<open>exchanges\<close> logs every request handed to
  \<open>urlopen\<close> with what \<^verbatim>\<open>_request\<close> made of it; \<open>names\<close> are the random names the
  \<^verbatim>\<open>tempfile\<close> module will draw, in \<open>tmpdir\<close>.
\<close>

record 's world =
  files :: "string \<rightharpoonup> content"
  remote :: 's
  exchanges :: "(request \<times> (error + json)) list"
  tmpdir :: string
  names :: "string list"

definition py_str :: "'s platform \<Rightarrow> json \<Rightarrow> string" where
  "py_str P v = (case v of JStr s \<Rightarrow> s | _ \<Rightarrow> str_of P v)"

section \<open>The client (\<^verbatim>\<open>indra_sdk/client.py\<close>)\<close>

record IndraClientOptions =
  base_url :: string
  timeout :: rat

definition default_options :: IndraClientOptions where
  "default_options = \<lparr>base_url = ''http://127.0.0.1:8787'', timeout = 60\<rparr>"

record IndraClient =
  client_base_url :: string
  client_timeout :: rat

definition init :: "IndraClientOptions option \<Rightarrow> IndraClient" where
  "init options =
     (let opts = (case options of None \<Rightarrow> default_options | Some x \<Rightarrow> x)
      in \<lparr>client_base_url = rstrip_slash (base_url opts), client_timeout = timeout opts\<rparr>)"

definition request :: "'s platform \<Rightarrow> IndraClient \<Rightarrow> string \<Rightarrow> string \<Rightarrow> dict option \<Rightarrow>
    's world \<Rightarrow> (error + json) \<times> 's world" where
  "request P self method path body w =
     (let url = client_base_url self @ path;
          headers = (case body of None \<Rightarrow> [] | Some _ \<Rightarrow> [(''Content-Type'', ''application/json'')]);
          req = \<lparr>req_method = method, req_url = url, req_data = body, req_headers = headers,
                 req_timeout = client_timeout self\<rparr>;
          (reply, s) = urlopen P req (remote w);
          outcome = (case reply of
                       Inl e \<Rightarrow> Inl e
                     | Inr Unparsable \<Rightarrow> Inl JSONDecodeError
                     | Inr (Parsed j) \<Rightarrow> Inr j)
      in (outcome, w\<lparr>remote := s, exchanges := exchanges w @ [(req, outcome)]\<rparr>))"

definition require_keys :: "dict \<Rightarrow> string list \<Rightarrow> string \<Rightarrow> error + unit" where
  "require_keys payload keys operation =
     (let missing = filter (\<lambda>key. \<not> contains payload key) keys
      in if missing \<noteq> []
         then Inl (ValueError (operation @ '' requires keys: '' @ join '', '' missing))
         else Inr ())"

definition expect_ok :: "'s platform \<Rightarrow> json \<Rightarrow> error + dict" where
  "expect_ok P response =
     (case response of
        JObj d \<Rightarrow>
          (let status = dict_get d ''status''
           in if status \<noteq> Some (JStr ''ok'')
              then (let message = (case dict_get d ''message'' of
                                     None \<Rightarrow> JStr ''Unknown error''
                                   | Some m \<Rightarrow> m)
                    in Inl (RuntimeError (py_str P message)))
              else Inr (filter (\<lambda>(k, v). k \<noteq> ''status'') d))
      | _ \<Rightarrow> Inl AttributeError)"

definition health :: "'s platform \<Rightarrow> IndraClient \<Rightarrow> 's world \<Rightarrow> (error + bool) \<times> 's world" where
  "health P self w =
     (case request P self ''GET'' ''/health'' None w of
        (Inl e, w') \<Rightarrow> (Inr False, w')
      | (Inr response, w') \<Rightarrow>
          (case response of
             JObj d \<Rightarrow> (Inr (dict_get d ''status'' = Some (JStr ''ok'')), w')
           | _ \<Rightarrow> (Inl AttributeError, w')))"

text \<open>
  The operations take the caller's payload object and return, with the result, that
  object as it is after the call: \<^verbatim>\<open>payload.setdefault\<close> works on the object itself.
\<close>

definition render :: "'s platform \<Rightarrow> IndraClient \<Rightarrow> dict \<Rightarrow> 's world \<Rightarrow>
    (error + dict) \<times> dict \<times> 's world" where
  "render P self payload w =
     (case require_keys payload [''input'', ''output''] ''render'' of
        Inl e \<Rightarrow> (Inl e, payload, w)
      | Inr _ \<Rightarrow>
          (let payload' = snd (setdefault ''bitDepth'' (JInt 8) payload)
           in case request P self ''POST'' ''/render'' (Some payload') w of
                (Inl e, w') \<Rightarrow> (Inl e, payload', w')
              | (Inr response, w') \<Rightarrow> (expect_ok P response, payload', w')))"

definition simulate :: "'s platform \<Rightarrow> IndraClient \<Rightarrow> dict \<Rightarrow> 's world \<Rightarrow>
    (error + dict) \<times> dict \<times> 's world" where
  "simulate P self payload w =
     (case require_keys payload [''input''] ''simulate'' of
        Inl e \<Rightarrow> (Inl e, payload, w)
      | Inr _ \<Rightarrow>
          (case request P self ''POST'' ''/simulate'' (Some payload) w of
             (Inl e, w') \<Rightarrow> (Inl e, payload, w')
           | (Inr response, w') \<Rightarrow> (expect_ok P response, payload, w')))"

definition capture :: "'s platform \<Rightarrow> IndraClient \<Rightarrow> dict \<Rightarrow> 's world \<Rightarrow>
    (error + dict) \<times> dict \<times> 's world" where
  "capture P self payload w =
     (case require_keys payload [''input'', ''output''] ''capture'' of
        Inl e \<Rightarrow> (Inl e, payload, w)
      | Inr _ \<Rightarrow>
          (case request P self ''POST'' ''/capture'' (Some payload) w of
             (Inl e, w') \<Rightarrow> (Inl e, payload, w')
           | (Inr response, w') \<Rightarrow> (expect_ok P response, payload, w')))"

definition validate_manifest :: "'s platform \<Rightarrow> IndraClient \<Rightarrow> dict \<Rightarrow> 's world \<Rightarrow>
    (error + dict) \<times> dict \<times> 's world" where
  \<open>validate_manifest P self payload w =
     (if \<not> contains payload ''manifest'' \<and> \<not> contains payload ''manifestPath''
      then (Inl (ValueError ''manifest validation requires "manifest" or "manifestPath".''),
            payload, w)
      else (case request P self ''POST'' ''/manifest/validate'' (Some payload) w of
              (Inl e, w') \<Rightarrow> (Inl e, payload, w')
            | (Inr response, w') \<Rightarrow> (expect_ok P response, payload, w')))\<close>

section \<open>The sweep (\<^verbatim>\<open>examples/python/parameter_sweep.py\<close>)\<close>

definition BASE_DIR :: "'s platform \<Rightarrow> string" where
  "BASE_DIR P = checkout P @ ''/examples''"

definition MANIFEST_PATH :: "'s platform \<Rightarrow> string" where
  "MANIFEST_PATH P = checkout P @ ''/public'' @ ''/sample-manifest.json''"

definition INPUT_IMAGE :: "'s platform \<Rightarrow> string" where
  "INPUT_IMAGE P = BASE_DIR P @ ''/assets'' @ ''/sample-input.png''"

definition OUTPUT_DIR :: "'s platform \<Rightarrow> string" where
  "OUTPUT_DIR P = BASE_DIR P @ ''/artifacts''"

subsection \<open>Files\<close>

text \<open>
  \<^verbatim>\<open>NamedTemporaryFile(suffix=".json", prefix="indra-manifest-", delete=False)\<close> creates
  its file exclusively: it takes the first drawn name whose path does not exist, and
  gives up with \<^verbatim>\<open>FileExistsError\<close> when the names run out.
\<close>

definition temp_path :: "string \<Rightarrow> string \<Rightarrow> string" where
  "temp_path dir r = dir @ ''/'' @ ''indra-manifest-'' @ r @ ''.json''"

fun mkstemp :: "(string \<rightharpoonup> content) \<Rightarrow> string \<Rightarrow> string list \<Rightarrow> string option \<times> string list" where
  "mkstemp fs dir [] = (None, [])"
| "mkstemp fs dir (r # rs) =
     (if fs (temp_path dir r) = None then (Some (temp_path dir r), rs) else mkstemp fs dir rs)"

text \<open>\<^verbatim>\<open>path.unlink(missing_ok=...)\<close>\<close>

definition unlink :: "bool \<Rightarrow> string \<Rightarrow> (string \<rightharpoonup> content) \<Rightarrow> error + (string \<rightharpoonup> content)" where
  "unlink missing_ok p fs =
     (if fs p = None
      then (if missing_ok then Inr fs else Inl (FileNotFoundError p))
      else Inr (fs(p := None)))"

text \<open>\<^verbatim>\<open>v[key]\<close> with a string key\<close>

definition subscript :: "json \<Rightarrow> string \<Rightarrow> error + json" where
  "subscript v k =
     (case v of
        JObj d \<Rightarrow> (case map_of d k of None \<Rightarrow> Inl (KeyError k) | Some x \<Rightarrow> Inr x)
      | _ \<Rightarrow> Inl TypeError)"

subsection \<open>\<^verbatim>\<open>mutate_manifest\<close>\<close>

text \<open>
  Line 27, on one preset whose id matches. The dictionaries under \<^verbatim>\<open>panels\<close> and
  \<^verbatim>\<open>compositor\<close> are the objects stored in the preset, so assigning into the inner one
  changes the preset: the updated objects are stored back under their keys.
\<close>

definition set_blend :: "rat \<Rightarrow> dict \<Rightarrow> error + dict" where
  "set_blend blend preset =
     (let (panels, preset1) = setdefault ''panels'' (JObj []) preset
      in case panels of
           JObj pd \<Rightarrow>
             (let (compositor, pd1) = setdefault ''compositor'' (JObj []) pd
              in case compositor of
                   JObj cd \<Rightarrow>
                     Inr (setitem ''panels''
                            (JObj (setitem ''compositor''
                                     (JObj (setitem ''blend'' (JFloat blend) cd)) pd1))
                            preset1)
                 | _ \<Rightarrow> Inl TypeError)
         | _ \<Rightarrow> Inl AttributeError)"

text \<open>The loop of lines 25 to 27 over a list of presets.\<close>

fun mutate_presets :: "rat \<Rightarrow> json list \<Rightarrow> error + json list" where
  "mutate_presets blend [] = Inr []"
| "mutate_presets blend (preset # rest) =
     (case preset of
        JObj d \<Rightarrow>
          (if dict_get d ''id'' = Some (JStr ''balanced-optics'')
           then (case set_blend blend d of
                   Inl e \<Rightarrow> Inl e
                 | Inr d' \<Rightarrow>
                     (case mutate_presets blend rest of
                        Inl e \<Rightarrow> Inl e
                      | Inr rest' \<Rightarrow> Inr (JObj d' # rest')))
           else (case mutate_presets blend rest of
                   Inl e \<Rightarrow> Inl e
                 | Inr rest' \<Rightarrow> Inr (preset # rest')))
      | _ \<Rightarrow> Inl AttributeError)"

text \<open>
  Lines 24 to 27 on the loaded document. A missing \<^verbatim>\<open>controls\<close> or \<^verbatim>\<open>presets\<close> gives the
  empty default and no iteration; \<^verbatim>\<open>presets\<close> that is a dictionary or a string iterates
  over its keys or characters, on which \<^verbatim>\<open>.get\<close> fails; a number, a boolean and
  \<^verbatim>\<open>None\<close> are not iterable.
\<close>

definition mutate_data :: "rat \<Rightarrow> json \<Rightarrow> error + json" where
  "mutate_data blend data =
     (case data of
        JObj doc \<Rightarrow>
          (case dict_get doc ''controls'' of
             None \<Rightarrow> Inr data
           | Some (JObj controls) \<Rightarrow>
               (case dict_get controls ''presets'' of
                  None \<Rightarrow> Inr data
                | Some (JArr presets) \<Rightarrow>
                    (case mutate_presets blend presets of
                       Inl e \<Rightarrow> Inl e
                     | Inr presets' \<Rightarrow>
                         Inr (JObj (setitem ''controls''
                                      (JObj (setitem ''presets'' (JArr presets') controls)) doc)))
                | Some (JObj kvs) \<Rightarrow> (if kvs = [] then Inr data else Inl AttributeError)
                | Some (JStr s) \<Rightarrow> (if s = [] then Inr data else Inl AttributeError)
                | Some _ \<Rightarrow> Inl TypeError)
           | Some _ \<Rightarrow> Inl AttributeError)
      | _ \<Rightarrow> Inl AttributeError)"

definition mutate_manifest :: "'s platform \<Rightarrow> rat \<Rightarrow> 's world \<Rightarrow> (error + string) \<times> 's world" where
  "mutate_manifest P blend w =
     (case files w (MANIFEST_PATH P) of
        None \<Rightarrow> (Inl (FileNotFoundError (MANIFEST_PATH P)), w)
      | Some (Doc data) \<Rightarrow>
          (case mutate_data blend data of
             Inl e \<Rightarrow> (Inl e, w)
           | Inr data' \<Rightarrow>
               (case mkstemp (files w) (tmpdir w) (names w) of
                  (None, rest) \<Rightarrow> (Inl FileExistsError, w\<lparr>names := rest\<rparr>)
                | (Some tmp, rest) \<Rightarrow>
                    (Inr tmp, w\<lparr>files := (files w)(tmp \<mapsto> Doc data'), names := rest\<rparr>)))
      | Some _ \<Rightarrow> (Inl JSONDecodeError, w))"

subsection \<open>\<^verbatim>\<open>main\<close>\<close>

definition blends :: "rat list" where
  "blends = [3 / 10, 4 / 10, 5 / 10, 6 / 10, 7 / 10]"

definition header :: "json list" where
  "header = [JStr ''blend'', JStr ''indra_index'', JStr ''rim_mean'', JStr ''coherence_mean'']"

text \<open>
  One iteration of the loop (lines 55 to 70), on the world and the rows written through
  the open handle so far. The result says whether the iteration raised.
\<close>

definition sweep_point :: "'s platform \<Rightarrow> IndraClient \<Rightarrow> rat \<Rightarrow> 's world \<Rightarrow> json list list \<Rightarrow>
    error option \<times> 's world \<times> json list list" where
  "sweep_point P client blend w rows =
     (case mutate_manifest P blend w of
        (Inl e, w1) \<Rightarrow> (Some e, w1, rows)
      | (Inr manifest, w1) \<Rightarrow>
          (let (raised, w2, rows') =
                 (case render P client
                         [(''input'', JStr (INPUT_IMAGE P)),
                          (''output'', JStr (OUTPUT_DIR P @ ''/render_'' @ format_2f P blend @ ''.png'')),
                          (''manifest'', JStr manifest),
                          (''preset'', JStr ''balanced-optics'')] w1 of
                    (Inl e, _, w2) \<Rightarrow> (Some e, w2, rows)
                  | (Inr result, _, w2) \<Rightarrow>
                      (case subscript (JObj result) ''metrics'' of
                         Inl e \<Rightarrow> (Some e, w2, rows)
                       | Inr metrics \<Rightarrow>
                           (case subscript metrics ''indraIndex'' of
                              Inl e \<Rightarrow> (Some e, w2, rows)
                            | Inr indraIndex \<Rightarrow>
                                (case subscript metrics ''rimMean'' of
                                   Inl e \<Rightarrow> (Some e, w2, rows)
                                 | Inr rimMean \<Rightarrow>
                                     (case subscript metrics ''coherenceMean'' of
                                        Inl e \<Rightarrow> (Some e, w2, rows)
                                      | Inr coherenceMean \<Rightarrow>
                                          (None, w2,
                                           rows @ [[JFloat blend, indraIndex, rimMean,
                                                    coherenceMean]]))))))
           in case unlink True manifest (files w2) of
                Inl e \<Rightarrow> (Some e, w2, rows')
              | Inr fs \<Rightarrow> (raised, w2\<lparr>files := fs\<rparr>, rows')))"

text \<open>The loop: an iteration that raises ends it.\<close>

fun sweep :: "'s platform \<Rightarrow> IndraClient \<Rightarrow> rat list \<Rightarrow> 's world \<Rightarrow> json list list \<Rightarrow>
    error option \<times> 's world \<times> json list list" where
  "sweep P client [] w rows = (None, w, rows)"
| "sweep P client (blend # rest) w rows =
     (case sweep_point P client blend w rows of
        (Some e, w', rows') \<Rightarrow> (Some e, w', rows')
      | (None, w', rows') \<Rightarrow> sweep P client rest w' rows')"

text \<open>
  The \<^verbatim>\<open>with\<close> block (lines 50 to 70) for a parameter sequence: opening the report
  truncates it, and leaving the block, normally or not, closes the handle, which leaves
  the rows written through it in the file.
\<close>

definition report :: "'s platform \<Rightarrow> IndraClient \<Rightarrow> rat list \<Rightarrow> 's world \<Rightarrow> error option \<times> 's world" where
  "report P client bs w =
     (let csv_path = OUTPUT_DIR P @ ''/blend_sweep.csv'';
          w1 = w\<lparr>files := (files w)(csv_path \<mapsto> Rows [])\<rparr>;
          (raised, w2, rows) = sweep P client bs w1 [header]
      in (raised, w2\<lparr>files := (files w2)(csv_path \<mapsto> Rows rows)\<rparr>))"

text \<open>
  The program. Directories are not files of the world, so \<^verbatim>\<open>OUTPUT_DIR.mkdir\<close> has
  nothing to do here, and the closing \<^verbatim>\<open>print\<close> is left out.
\<close>

definition main :: "'s platform \<Rightarrow> 's world \<Rightarrow> error option \<times> 's world" where
  "main P w =
     (if files w (INPUT_IMAGE P) = None
      then (Some (FileNotFoundError (''Input image missing: '' @ INPUT_IMAGE P @
                    ''. Create the file before running this example.'')), w)
      else (let client = init None
            in case health P client w of
                 (Inl e, w1) \<Rightarrow> (Some e, w1)
               | (Inr healthy, w1) \<Rightarrow>
                   (if \<not> healthy
                    then (Some (RuntimeError
                            ''Local Indra REST server is not reachable on http://127.0.0.1:8787''), w1)
                    else report P client blends w1)))"

section \<open>Vocabulary of the statements\<close>

text \<open>The four operations that post a payload, and the method behind each.\<close>

datatype operation = Render | Simulate | Capture | ValidateManifest

fun call :: "operation \<Rightarrow> 's platform \<Rightarrow> IndraClient \<Rightarrow> dict \<Rightarrow> 's world \<Rightarrow>
    (error + dict) \<times> dict \<times> 's world" where
  "call Render = render"
| "call Simulate = simulate"
| "call Capture = capture"
| "call ValidateManifest = validate_manifest"

text \<open>
  The keys each operation asks for and the name it goes by in the specification; a
  payload lacks what an operation needs when one of its keys is missing, and for the
  validation of a manifest when both are.
\<close>

fun required :: "operation \<Rightarrow> string list" where
  "required Render = [''input'', ''output'']"
| "required Simulate = [''input'']"
| "required Capture = [''input'', ''output'']"
| "required ValidateManifest = [''manifest'', ''manifestPath'']"

fun name :: "operation \<Rightarrow> string" where
  "name Render = ''render''"
| "name Simulate = ''simulate''"
| "name Capture = ''capture''"
| "name ValidateManifest = ''validateManifest''"

definition missing :: "operation \<Rightarrow> dict \<Rightarrow> string list" where
  "missing op payload = filter (\<lambda>k. k \<notin> fst ` set payload) (required op)"

definition lacking :: "operation \<Rightarrow> dict \<Rightarrow> bool" where
  "lacking op payload =
     (if op = ValidateManifest then missing op payload = required op
      else missing op payload \<noteq> [])"

text \<open>
  The entries of a mapping that may be absent: nothing, when it is absent or not a mapping.
\<close>

definition entries :: "json option \<Rightarrow> dict" where
  "entries v = (case v of Some (JObj d) \<Rightarrow> d | _ \<Rightarrow> [])"

text \<open>
  The value under a key of such a mapping.
\<close>

definition child :: "json option \<Rightarrow> string \<Rightarrow> json option" where
  "child v k = map_of (entries v) k"

text \<open>
  A dictionary without one key: its other entries, in their order.
\<close>

definition without :: "string \<Rightarrow> dict \<Rightarrow> dict" where
  "without k d = filter (\<lambda>(k', v). k' \<noteq> k) d"

definition mapping_or_absent :: "json option \<Rightarrow> bool" where
  "mapping_or_absent v = (case v of None \<Rightarrow> True | Some (JObj d) \<Rightarrow> True | _ \<Rightarrow> False)"

text \<open>
  Two mappings, absent ones counted as empty, that have the same entries apart from one key.
\<close>

definition same_but :: "string \<Rightarrow> json option \<Rightarrow> json option \<Rightarrow> bool" where
  "same_but k v v' =
     (mapping_or_absent v \<and> mapping_or_absent v' \<and> without k (entries v') = without k (entries v))"

text \<open>
  A preset whose id is "balanced-optics".
\<close>

definition matching :: "json \<Rightarrow> bool" where
  "matching p = (child (Some p) ''id'' = Some (JStr ''balanced-optics''))"

text \<open>
  The blend of a preset: the value at panels, compositor, blend.
\<close>

definition blend_of :: "json \<Rightarrow> json option" where
  "blend_of p = child (child (child (Some p) ''panels'') ''compositor'') ''blend''"

text \<open>
  Two presets that differ at most at panels, compositor, blend.
\<close>

definition blend_only :: "json \<Rightarrow> json \<Rightarrow> bool" where
  "blend_only p p' =
     (same_but ''panels'' (Some p) (Some p') \<and>
      same_but ''compositor'' (child (Some p) ''panels'') (child (Some p') ''panels'') \<and>
      same_but ''blend'' (child (child (Some p) ''panels'') ''compositor'')
                         (child (child (Some p') ''panels'') ''compositor''))"

text \<open>
  A preset that line 27 can work on: a mapping whose panels, and the compositor under
  them, are mappings or absent when its id matches.
\<close>

definition settable :: "json \<Rightarrow> bool" where
  "settable p =
     (case p of
        JObj d \<Rightarrow>
          \<not> matching p \<or>
          (mapping_or_absent (child (Some p) ''panels'') \<and>
           mapping_or_absent (child (child (Some p) ''panels'') ''compositor''))
      | _ \<Rightarrow> False)"

definition listed :: "json \<Rightarrow> bool" where
  "listed data =
     (case child (child (Some data) ''controls'') ''presets'' of
        Some (JArr ps) \<Rightarrow> True
      | _ \<Rightarrow> False)"

text \<open>
  The presets of a document, when \<^verbatim>\<open>controls.presets\<close> is a list.
\<close>

definition presets_of :: "json \<Rightarrow> json list" where
  "presets_of data =
     (case child (child (Some data) ''controls'') ''presets'' of
        Some (JArr ps) \<Rightarrow> ps
      | _ \<Rightarrow> [])"

text \<open>
  Two documents that are equal, or differ at most in the presets under controls, where
  the presets correspond one to one: a preset whose id matches differs at most in its
  blend, and any other is unchanged.
\<close>

definition differs_in_blend_only :: "json \<Rightarrow> json \<Rightarrow> bool" where
  "differs_in_blend_only data data' =
     (data' = data \<or>
      (listed data \<and> listed data' \<and>
       same_but ''controls'' (Some data) (Some data') \<and>
       same_but ''presets'' (child (Some data) ''controls'') (child (Some data') ''controls'') \<and>
       list_all2 (\<lambda>p p'. if matching p then blend_only p p' else p' = p)
         (presets_of data) (presets_of data')))"

text \<open>
  The row that a reply yields for a sweep point: the blend and the three metrics of a
  reply with status "ok"; no row for a failure, another status or a missing metric.
\<close>

definition row_of :: "rat \<Rightarrow> error + json \<Rightarrow> json list option" where
  "row_of blend out =
     (case out of
        Inl e \<Rightarrow> None
      | Inr reply \<Rightarrow>
          (let metrics = child (Some reply) ''metrics''
           in if child (Some reply) ''status'' = Some (JStr ''ok'')
              then (case (child metrics ''indraIndex'', child metrics ''rimMean'',
                          child metrics ''coherenceMean'') of
                      (Some i, Some r, Some c) \<Rightarrow> Some [JFloat blend, i, r, c]
                    | _ \<Rightarrow> None)
              else None))"

text \<open>
  A platform for running the code on examples: the service answers from a script, one
  reply per request, and is unreachable once the script is used up; the blends of the
  module are formatted as Python formats them.
\<close>

definition scripted :: "((error + body) list) platform" where
  "scripted =
     \<lparr>urlopen = (\<lambda>req s. case s of [] \<Rightarrow> (Inl URLError, []) | r # rs \<Rightarrow> (r, rs)),
      str_of = (\<lambda>v. ''<value>''),
      format_2f = (\<lambda>x. case map_of [(3 / 10, ''0.30''), (4 / 10, ''0.40''), (5 / 10, ''0.50''),
                                       (6 / 10, ''0.60''), (7 / 10, ''0.70'')] x of
                         Some s \<Rightarrow> s
                       | None \<Rightarrow> ''0.00''),
      checkout = ''/repo''\<rparr>"

definition serving :: "(error + body) list \<Rightarrow> ((error + body) list) world" where
  "serving replies =
     \<lparr>files = Map.empty, remote = replies, exchanges = [], tmpdir = ''/tmp'',
      names = [''k3x9'', ''p0q1'']\<rparr>"

text \<open>
  A manifest with two presets of the id and one other: the first has no panels, the
  last has panels without a compositor.
\<close>

definition sample_manifest :: json where
  "sample_manifest =
     JObj [(''version'', JInt 1),
           (''controls'', JObj [(''presets'', JArr [
              JObj [(''id'', JStr ''balanced-optics'')],
              JObj [(''id'', JStr ''night''),
                    (''panels'', JObj [(''compositor'', JObj [(''blend'', JFloat (1 / 2))])])],
              JObj [(''id'', JStr ''balanced-optics''), (''panels'', JObj [(''rim'', JInt 2)])]])])]"

text \<open>
  A world with that manifest and an input image in place.
\<close>

definition studio :: "(error + body) list \<Rightarrow> ((error + body) list) world" where
  "studio replies =
     (serving replies)\<lparr>files := [MANIFEST_PATH scripted \<mapsto> Doc sample_manifest,
                                  INPUT_IMAGE scripted \<mapsto> Other]\<rparr>"

text \<open>
  A successful render with metrics i, 2i and 3i, and a failure reported by the service.
\<close>

definition ok_reply :: "int \<Rightarrow> error + body" where
  "ok_reply i =
     Inr (Parsed (JObj [(''status'', JStr ''ok''),
                        (''metrics'', JObj [(''indraIndex'', JInt i), (''rimMean'', JInt (i * 2)),
                                            (''coherenceMean'', JInt (i * 3))])]))"

definition boom :: "error + body" where
  "boom = Inr (Parsed (JObj [(''status'', JStr ''error''), (''message'', JStr ''boom'')]))"

section \<open>Dictionaries and requests\<close>

lemmas demo_defs = scripted_def serving_def init_def default_options_def rstrip_slash_def
  request_def require_keys_def contains_def dict_get_def setdefault_def Let_def

lemma contains_keys: "contains d k \<longleftrightarrow> k \<in> fst ` set d"
  by (simp add: contains_def map_of_eq_None_iff)

lemma snd_setdefault:
  "snd (setdefault k v d) = (if k \<in> fst ` set d then d else d @ [(k, v)])"
proof (cases "map_of d k")
  case None
  then have "k \<notin> fst ` set d"
    by (simp add: map_of_eq_None_iff)
  with None show ?thesis by (simp add: setdefault_def)
next
  case (Some x)
  then have "k \<in> fst ` set d"
    by (metis map_of_eq_None_iff option.distinct(1))
  with Some show ?thesis by (simp add: setdefault_def)
qed

lemma filter_status:
  "dict_get (filter (\<lambda>(k, v). k \<noteq> s) d) k = (if k = s then None else dict_get d k)"
  by (induction d) (auto simp: dict_get_def)

lemma sublist_join: "k \<in> set xs \<Longrightarrow> sublist k (join sep xs)"
proof (induction sep xs rule: join.induct)
  case (1 sep)
  then show ?case by simp
next
  case (2 sep x)
  then show ?case by simp
next
  case (3 sep x y ys)
  show ?case
  proof (cases "k = x")
    case True
    then show ?thesis by (simp add: sublist_append_rightI)
  next
    case False
    with 3 have "sublist k (join sep (y # ys))" by simp
    then have "sublist k ((x @ sep) @ join sep (y # ys))"
      by (simp only: sublist_append) simp
    then show ?thesis by simp
  qed
qed

lemma require_keys_missing:
  "require_keys payload keys operation =
     (let m = filter (\<lambda>k. k \<notin> fst ` set payload) keys
      in if m = [] then Inr ()
         else Inl (ValueError (operation @ '' requires keys: '' @ join '', '' m)))"
  by (simp add: require_keys_def contains_keys Let_def)

lemma request_log:
  "request P self method path body w = (out, w') \<Longrightarrow>
     \<exists>req. exchanges w' = exchanges w @ [(req, out)] \<and> req_data req = body \<and>
           req_method req = method"
  by (auto simp: request_def Let_def split: prod.splits)

lemma request_length:
  "length (exchanges (snd (request P self method path body w))) = Suc (length (exchanges w))"
  by (simp add: request_def Let_def split: prod.splits)

lemma payload_of_post:
  "fst (snd (case request P self m path (Some p) w of
               (Inl e, w') \<Rightarrow> (Inl e, p, w')
             | (Inr response, w') \<Rightarrow> (expect_ok P response, p, w'))) = p"
  by (simp split: prod.splits sum.splits)

lemma call_response:
  assumes "call op P self payload w = (result, payload', w')"
    and "exchanges w' = exchanges w @ [(req, Inr response)]"
  shows "result = expect_ok P response"
  using assms
  by (cases op)
     (auto simp: render_def simulate_def capture_def validate_manifest_def Let_def
           split: sum.splits prod.splits if_splits dest!: request_log)

lemma not_lacking_sends:
  assumes "\<not> lacking op payload"
  shows "length (exchanges (snd (snd (call op P self payload w)))) = Suc (length (exchanges w))"
proof -
  have *: "\<And>path p. length (exchanges (snd (snd
        (case request P self ''POST'' path (Some p) w of
           (Inl e, w') \<Rightarrow> (Inl e, p, w')
         | (Inr response, w') \<Rightarrow> (expect_ok P response, p, w'))))) = Suc (length (exchanges w))"
    using request_length [of P self "''POST''" _ _ w]
    by (auto split: prod.splits sum.splits) (metis snd_conv)+
  show ?thesis
    using assms
    by (cases op)
       (auto simp: lacking_def missing_def render_def simulate_def capture_def
          validate_manifest_def require_keys_missing contains_keys Let_def * split: if_splits)
qed

lemma lacking_keys: "fst ` set p = fst ` set q \<Longrightarrow> lacking op p = lacking op q"
  by (simp add: lacking_def missing_def)

lemma health_outcome:
  "\<exists>req out. exchanges (snd (health P self w)) = exchanges w @ [(req, out)] \<and>
     req_method req = ''GET'' \<and> req_data req = None \<and>
     fst (health P self w) =
       (case out of
          Inl e \<Rightarrow> Inr False
        | Inr (JObj d) \<Rightarrow> Inr (dict_get d ''status'' = Some (JStr ''ok''))
        | Inr _ \<Rightarrow> Inl AttributeError)"
proof -
  obtain out w' where r: "request P self ''GET'' ''/health'' None w = (out, w')"
    by (cases "request P self ''GET'' ''/health'' None w")
  from request_log [OF r] obtain req where
    "exchanges w' = exchanges w @ [(req, out)]" "req_data req = None" "req_method req = ''GET''"
    by blast
  then show ?thesis
    using r by (auto simp: health_def split: sum.splits json.splits)
qed

section \<open>The client's contract\<close>

text \<open>
  C1. Whichever of render, simulate, capture and validate_manifest is called: when the
  call exchanged its request for a reply that parses to a JSON object, a status that is
  absent or not "ok" raises RuntimeError with the object's message (as \<^verbatim>\<open>str\<close> gives it)
  or with "Unknown error" when there is none, and status "ok" returns the object without
  its status entry, every other entry as it was.
\<close>

theorem expect_ok_discrimination:
  assumes "call op P self payload w = (result, payload', w')"
    and "exchanges w' = exchanges w @ [(req, Inr (JObj response))]"
  shows "(dict_get response ''status'' \<noteq> Some (JStr ''ok'') \<longrightarrow>
            result = Inl (RuntimeError (case dict_get response ''message'' of
                                          None \<Rightarrow> ''Unknown error''
                                        | Some (JStr s) \<Rightarrow> s
                                        | Some m \<Rightarrow> str_of P m))) \<and>
         (dict_get response ''status'' = Some (JStr ''ok'') \<longrightarrow>
            result = Inr (filter (\<lambda>(k, v). k \<noteq> ''status'') response) \<and>
            (\<forall>r. result = Inr r \<longrightarrow>
               (\<forall>k. dict_get r k = (if k = ''status'' then None else dict_get response k))))"
proof -
  have "result = expect_ok P (JObj response)"
    using assms by (rule call_response)
  then show ?thesis
    by (auto simp: expect_ok_def py_str_def filter_status split: option.splits json.splits)
qed

text \<open>
  C1 on an example: simulate, answered with status "error" and message "boom", raises
  RuntimeError "boom".
\<close>

theorem expect_ok_discrimination_witness:
  "exchanges (snd (snd (call Simulate scripted (init None) [(''input'', JStr ''a.png'')]
     (serving [Inr (Parsed (JObj [(''status'', JStr ''error''), (''message'', JStr ''boom'')]))]))))
   = [(\<lparr>req_method = ''POST'', req_url = ''http://127.0.0.1:8787/simulate'',
        req_data = Some [(''input'', JStr ''a.png'')],
        req_headers = [(''Content-Type'', ''application/json'')], req_timeout = 60\<rparr>,
       Inr (JObj [(''status'', JStr ''error''), (''message'', JStr ''boom'')]))] \<and>
   fst (call Simulate scripted (init None) [(''input'', JStr ''a.png'')]
     (serving [Inr (Parsed (JObj [(''status'', JStr ''error''), (''message'', JStr ''boom'')]))]))
   = Inl (RuntimeError ''boom'')"
proof -
  let ?w = "serving [Inr (Parsed (JObj [(''status'', JStr ''error''), (''message'', JStr ''boom'')]))]"
  let ?res = "call Simulate scripted (init None) [(''input'', JStr ''a.png'')] ?w"
  have run: "call Simulate scripted (init None) [(''input'', JStr ''a.png'')] ?w
             = (fst ?res, fst (snd ?res), snd (snd ?res))"
    by simp
  have log: "exchanges (snd (snd ?res)) = exchanges ?w @
       [(\<lparr>req_method = ''POST'', req_url = ''http://127.0.0.1:8787/simulate'',
          req_data = Some [(''input'', JStr ''a.png'')],
          req_headers = [(''Content-Type'', ''application/json'')], req_timeout = 60\<rparr>,
         Inr (JObj [(''status'', JStr ''error''), (''message'', JStr ''boom'')]))]"
    by (simp add: simulate_def demo_defs)
  have "fst ?res = Inl (RuntimeError ''boom'')"
    using expect_ok_discrimination [OF run log] by (simp add: dict_get_def)
  with log show ?thesis
    by (simp add: serving_def)
qed

text \<open>
  C2, as stated, fails on validate_manifest: called with an empty payload it raises
  ValueError before any request, and the message names both keys, yet the name of the
  operation occurs nowhere in it, neither as validateManifest nor as validate_manifest.
\<close>

theorem validation_message_counterexample:
  \<open>call ValidateManifest scripted (init None) [] (serving []) =
     (Inl (ValueError ''manifest validation requires "manifest" or "manifestPath".''), [], serving [])
   \<and> \<not> sublist (name ValidateManifest) ''manifest validation requires "manifest" or "manifestPath".''
   \<and> \<not> sublist ''validate_manifest'' ''manifest validation requires "manifest" or "manifestPath".''\<close>
  by (simp add: validate_manifest_def contains_def sublist_code)

text \<open>
  C2, amended. A payload that lacks what the operation needs raises ValueError and
  leaves the payload and the world as they were, so nothing is sent. For render,
  simulate and capture the message is the operation's name, " requires keys: " and the
  missing keys joined by ", "; for validate_manifest it is one fixed text that quotes
  both keys. Every missing key occurs in the message. A payload that lacks nothing has
  exactly one request sent, and whether a payload lacks something depends on its key
  set alone.
\<close>

theorem validation_precedes_io:
  \<open>(lacking op payload \<longrightarrow>
      (\<exists>msg. call op P self payload w = (Inl (ValueError msg), payload, w) \<and>
         msg = (if op = ValidateManifest
                then ''manifest validation requires "manifest" or "manifestPath".''
                else name op @ '' requires keys: '' @ join '', '' (missing op payload)) \<and>
         (\<forall>k \<in> set (missing op payload). sublist k msg) \<and>
         (op \<noteq> ValidateManifest \<longrightarrow> prefix (name op) msg))) \<and>
   (\<not> lacking op payload \<longrightarrow>
      length (exchanges (snd (snd (call op P self payload w)))) = Suc (length (exchanges w))) \<and>
   (fst ` set payload = fst ` set payload' \<longrightarrow> lacking op payload = lacking op payload')\<close>
proof (intro conjI impI)
  assume l: "lacking op payload"
  let ?msg = \<open>if op = ValidateManifest
                then ''manifest validation requires "manifest" or "manifestPath".''
                else name op @ '' requires keys: '' @ join '', '' (missing op payload)\<close>
  have run: "call op P self payload w = (Inl (ValueError ?msg), payload, w)"
    using l
    by (cases op)
       (auto simp: lacking_def missing_def render_def simulate_def capture_def
          validate_manifest_def require_keys_missing contains_keys Let_def split: if_splits)
  have keys: "\<forall>k \<in> set (missing op payload). sublist k ?msg"
  proof
    fix k assume k: "k \<in> set (missing op payload)"
    show "sublist k ?msg"
    proof (cases "op = ValidateManifest")
      case True
      have "set (missing op payload) \<subseteq> set (required op)"
        unfolding missing_def by (rule filter_is_subset)
      with k True have "k \<in> set (required ValidateManifest)"
        by blast
      then have "k = ''manifest'' \<or> k = ''manifestPath''"
        by simp
      with True show ?thesis by (auto simp: sublist_code)
    next
      case False
      have "sublist k (join '', '' (missing op payload))"
        using k by (rule sublist_join)
      then have "sublist k ((name op @ '' requires keys: '') @ join '', '' (missing op payload))"
        by (simp only: sublist_append) simp
      with False show ?thesis by simp
    qed
  qed
  have nm: "op \<noteq> ValidateManifest \<longrightarrow> prefix (name op) ?msg"
    by simp
  show "\<exists>msg. call op P self payload w = (Inl (ValueError msg), payload, w) \<and>
         msg = ?msg \<and> (\<forall>k \<in> set (missing op payload). sublist k msg) \<and>
         (op \<noteq> ValidateManifest \<longrightarrow> prefix (name op) msg)"
    using run keys nm by blast
next
  assume "\<not> lacking op payload"
  then show "length (exchanges (snd (snd (call op P self payload w)))) = Suc (length (exchanges w))"
    by (rule not_lacking_sends)
next
  assume "fst ` set payload = fst ` set payload'"
  then show "lacking op payload = lacking op payload'"
    by (rule lacking_keys)
qed

text \<open>
  C2, amended, on an example: capture of a payload whose only key is input, with the
  value None, raises "capture requires keys: output" and changes nothing.
\<close>

theorem validation_precedes_io_witness:
  "lacking Capture [(''input'', JNull)] \<and>
   call Capture scripted (init None) [(''input'', JNull)] (serving [])
     = (Inl (ValueError ''capture requires keys: output''), [(''input'', JNull)], serving [])"
proof -
  have l: "lacking Capture [(''input'', JNull)]"
    by (simp add: lacking_def missing_def)
  have m: "missing Capture [(''input'', JNull)] = [''output'']"
    by (simp add: missing_def)
  show ?thesis
    using l m validation_precedes_io [of Capture "[(''input'', JNull)]" scripted "init None" "serving []"]
    by simp
qed

text \<open>
  C3, as stated, fails: render of a payload with input and output and no bitDepth leaves
  the caller's payload different from what it was.
\<close>

theorem render_mutates_payload_counterexample:
  "fst (snd (call Render scripted (init None)
               [(''input'', JStr ''in.png''), (''output'', JStr ''out.png'')] (serving [])))
   \<noteq> [(''input'', JStr ''in.png''), (''output'', JStr ''out.png'')]"
  by (simp add: render_def demo_defs)

text \<open>
  C3, amended. After a call the caller's payload is what it was, with one exception:
  render of a payload that has input and output and no bitDepth leaves it with the
  entry bitDepth = 8 added last, and nothing else changed.
\<close>

theorem payload_after_call:
  "fst (snd (call op P self payload w)) =
     (if op = Render \<and> ''input'' \<in> fst ` set payload \<and> ''output'' \<in> fst ` set payload \<and>
         ''bitDepth'' \<notin> fst ` set payload
      then payload @ [(''bitDepth'', JInt 8)]
      else payload)"
  by (cases op)
     (simp_all add: render_def simulate_def capture_def validate_manifest_def
        require_keys_missing Let_def payload_of_post snd_setdefault)

text \<open>C3, amended, on the payload of the counterexample.\<close>

theorem payload_after_call_witness:
  "fst (snd (call Render scripted (init None)
               [(''input'', JStr ''in.png''), (''output'', JStr ''out.png'')] (serving [])))
   = [(''input'', JStr ''in.png''), (''output'', JStr ''out.png''), (''bitDepth'', JInt 8)]"
  using payload_after_call [of Render scripted "init None"
      "[(''input'', JStr ''in.png''), (''output'', JStr ''out.png'')]" "serving []"]
  by simp

text \<open>
  C4 fails where the reply is JSON but not an object: answered with the empty array,
  health raises AttributeError, since the status is read outside the \<^verbatim>\<open>try\<close>.
\<close>

theorem health_raises_on_array:
  "fst (health scripted (init None) (serving [Inr (Parsed (JArr []))])) = Inl AttributeError"
  by (simp add: health_def demo_defs)

text \<open>
  C8. render of a payload that has input and output sends one POST to /render whose
  body has bitDepth 8 when the payload has no bitDepth and the payload's own value
  otherwise; every other key is sent as given, and a payload with a bitDepth is sent as
  it is.
\<close>

theorem render_bit_depth:
  assumes "''input'' \<in> fst ` set payload" and "''output'' \<in> fst ` set payload"
  shows "\<exists>req out body.
           exchanges (snd (snd (render P self payload w))) = exchanges w @ [(req, out)] \<and>
           req_method req = ''POST'' \<and> req_url req = client_base_url self @ ''/render'' \<and>
           req_data req = Some body \<and>
           dict_get body ''bitDepth'' =
             (case dict_get payload ''bitDepth'' of None \<Rightarrow> Some (JInt 8) | Some v \<Rightarrow> Some v) \<and>
           (\<forall>k. k \<noteq> ''bitDepth'' \<longrightarrow> dict_get body k = dict_get payload k) \<and>
           (''bitDepth'' \<in> fst ` set payload \<longrightarrow> body = payload)"
proof -
  let ?body = "snd (setdefault ''bitDepth'' (JInt 8) payload)"
  obtain out w' where r: "request P self ''POST'' ''/render'' (Some ?body) w = (out, w')"
    by (cases "request P self ''POST'' ''/render'' (Some ?body) w")
  then obtain req where req: "exchanges w' = exchanges w @ [(req, out)]"
      "req_data req = Some ?body" "req_method req = ''POST''"
      "req_url req = client_base_url self @ ''/render''"
    by (auto simp: request_def Let_def split: prod.splits)
  have w': "snd (snd (render P self payload w)) = w'"
    using assms r by (simp add: render_def require_keys_missing Let_def split: sum.splits)
  have b1: "dict_get ?body ''bitDepth'' =
      (case dict_get payload ''bitDepth'' of None \<Rightarrow> Some (JInt 8) | Some v \<Rightarrow> Some v)"
    by (auto simp: setdefault_def dict_get_def map_add_def split: option.splits)
  have b2: "\<forall>k. k \<noteq> ''bitDepth'' \<longrightarrow> dict_get ?body k = dict_get payload k"
    by (simp add: setdefault_def dict_get_def map_add_def split: option.splits)
  have b3: "''bitDepth'' \<in> fst ` set payload \<longrightarrow> ?body = payload"
    by (simp add: snd_setdefault)
  show ?thesis
    using req w' b1 b2 b3 by blast
qed

text \<open>
  C8 on two examples: without a bitDepth the body sent carries 8, and a bitDepth of 16
  is sent as given.
\<close>

theorem render_bit_depth_witness:
  "map (\<lambda>(req, out). req_data req)
     (exchanges (snd (snd (render scripted (init None)
        [(''input'', JStr ''in.png''), (''output'', JStr ''out.png'')] (serving [])))))
   = [Some [(''input'', JStr ''in.png''), (''output'', JStr ''out.png''), (''bitDepth'', JInt 8)]] \<and>
   map (\<lambda>(req, out). req_data req)
     (exchanges (snd (snd (render scripted (init None)
        [(''input'', JStr ''in.png''), (''output'', JStr ''out.png''), (''bitDepth'', JInt 16)]
        (serving [])))))
   = [Some [(''input'', JStr ''in.png''), (''output'', JStr ''out.png''), (''bitDepth'', JInt 16)]]"
proof -
  let ?p = "[(''input'', JStr ''in.png''), (''output'', JStr ''out.png'')]"
  let ?q = "[(''input'', JStr ''in.png''), (''output'', JStr ''out.png''), (''bitDepth'', JInt 16)]"
  have "''input'' \<in> fst ` set ?p" and "''output'' \<in> fst ` set ?p"
    by simp_all
  from render_bit_depth [OF this, of scripted "init None" "serving []"]
  obtain req out body where
    a: "exchanges (snd (snd (render scripted (init None) ?p (serving [])))) = [(req, out)]"
      "req_data req = Some body"
    by (auto simp: serving_def)
  have "map (\<lambda>(req, out). req_data req)
          (exchanges (snd (snd (render scripted (init None) ?p (serving [])))))
        = [Some (?p @ [(''bitDepth'', JInt 8)])]"
    by (simp add: render_def demo_defs)
  moreover have "map (\<lambda>(req, out). req_data req)
          (exchanges (snd (snd (render scripted (init None) ?q (serving []))))) = [Some ?q]"
    by (simp add: render_def demo_defs)
  ultimately show ?thesis
    using a by simp
qed

text \<open>
  C9. render of a payload without input or without output raises ValueError and gives
  back the payload and the world exactly as they were: no bitDepth is added and nothing
  is sent.
\<close>

theorem render_validation_atomic:
  assumes "''input'' \<notin> fst ` set payload \<or> ''output'' \<notin> fst ` set payload"
  shows "\<exists>msg. render P self payload w = (Inl (ValueError msg), payload, w)"
  using assms by (auto simp: render_def require_keys_missing Let_def)

text \<open>C9 on an example: a payload with output only.\<close>

theorem render_validation_atomic_witness:
  "render scripted (init None) [(''output'', JStr ''out.png'')] (serving [])
     = (Inl (ValueError ''render requires keys: input''), [(''output'', JStr ''out.png'')], serving [])"
  using render_validation_atomic [of "[(''output'', JStr ''out.png'')]" scripted "init None" "serving []"]
  by (simp add: render_def require_keys_missing)

section \<open>The manifest of a sweep point\<close>

lemma without_update: "without k (AList.update k v d) = without k d"
  by (induction d) (auto simp: without_def)

lemma without_snoc: "without k (d @ [(k, v)]) = without k d"
  by (simp add: without_def)

lemma update_fresh_snoc:
  "map_of d k = None \<Longrightarrow> AList.update k v (d @ [(k, v')]) = d @ [(k, v)]"
  by (induction d) (auto split: if_splits)

lemma update_absent: "map_of d k = None \<Longrightarrow> AList.update k v d = d @ [(k, v)]"
  by (induction d) (auto split: if_splits)

lemma map_of_update_same: "map_of (AList.update k v d) k = Some v"
  by (simp add: update_conv')

lemma map_of_update_other: "k' \<noteq> k \<Longrightarrow> map_of (AList.update k v d) k' = map_of d k'"
  by (simp add: update_conv')

text \<open>Line 27 in closed form: the value stored at the path panels, compositor, blend.\<close>

lemma set_blend_closed:
  "set_blend blend d =
     (let pd = entries (map_of d ''panels''); cd = entries (map_of pd ''compositor'')
      in if \<not> mapping_or_absent (map_of d ''panels'') then Inl AttributeError
         else if \<not> mapping_or_absent (map_of pd ''compositor'') then Inl TypeError
         else Inr (AList.update ''panels''
                     (JObj (AList.update ''compositor''
                              (JObj (AList.update ''blend'' (JFloat blend) cd)) pd)) d))"
  by (simp add: set_blend_def setdefault_def setitem_def update_fresh_snoc update_absent
        entries_def mapping_or_absent_def
      split: option.splits json.splits)

lemma set_blend_effect:
  assumes "set_blend blend d = Inr d'"
  shows "blend_only (JObj d) (JObj d') \<and> blend_of (JObj d') = Some (JFloat blend) \<and>
         map_of d' ''id'' = map_of d ''id''"
proof -
  let ?pd = "entries (map_of d ''panels'')"
  let ?cd = "entries (map_of ?pd ''compositor'')"
  let ?cd' = "AList.update ''blend'' (JFloat blend) ?cd"
  let ?pd' = "AList.update ''compositor'' (JObj ?cd') ?pd"
  from assms have ok: "mapping_or_absent (map_of d ''panels'')"
      "mapping_or_absent (map_of ?pd ''compositor'')"
    and d': "d' = AList.update ''panels'' (JObj ?pd') d"
    by (auto simp: set_blend_closed Let_def split: if_splits)
  have p: "child (Some (JObj d')) ''panels'' = Some (JObj ?pd')"
    by (simp add: d' child_def entries_def map_of_update_same)
  have c: "child (Some (JObj ?pd')) ''compositor'' = Some (JObj ?cd')"
    by (simp add: child_def entries_def map_of_update_same)
  have b: "child (Some (JObj ?cd')) ''blend'' = Some (JFloat blend)"
    by (simp add: child_def entries_def map_of_update_same)
  have 1: "same_but ''panels'' (Some (JObj d)) (Some (JObj d'))"
    by (simp add: same_but_def mapping_or_absent_def entries_def d' without_update)
  have 2: "same_but ''compositor'' (child (Some (JObj d)) ''panels'') (Some (JObj ?pd'))"
    using ok(1)
    by (simp add: same_but_def child_def entries_def without_update)
       (simp add: mapping_or_absent_def)
  have 3: "same_but ''blend'' (child (child (Some (JObj d)) ''panels'') ''compositor'')
             (Some (JObj ?cd'))"
    using ok(2)
    by (simp add: same_but_def child_def entries_def without_update)
       (simp add: mapping_or_absent_def)
  have 4: "map_of d' ''id'' = map_of d ''id''"
    by (simp add: d' map_of_update_other)
  show ?thesis
    using 1 2 3 4 p c b by (simp add: blend_only_def blend_of_def)
qed

lemma set_blend_returns:
  "(\<exists>d'. set_blend blend d = Inr d') \<longleftrightarrow>
     mapping_or_absent (child (Some (JObj d)) ''panels'') \<and>
     mapping_or_absent (child (child (Some (JObj d)) ''panels'') ''compositor'')"
  by (auto simp: set_blend_closed child_def entries_def Let_def)

lemma mutate_presets_effect:
  "mutate_presets blend ps = Inr ps' \<Longrightarrow>
     list_all2 (\<lambda>p p'. if matching p
                        then matching p' \<and> blend_only p p' \<and> blend_of p' = Some (JFloat blend)
                        else p' = p) ps ps'"
proof (induction ps arbitrary: ps')
  case Nil
  then show ?case by simp
next
  case (Cons p ps)
  from Cons.prems obtain d where p: "p = JObj d"
    by (cases p) simp_all
  from Cons.prems p obtain rest' where rest: "mutate_presets blend ps = Inr rest'"
    by (auto split: if_splits sum.splits)
  have tl: "list_all2 (\<lambda>p p'. if matching p
                        then matching p' \<and> blend_only p p' \<and> blend_of p' = Some (JFloat blend)
                        else p' = p) ps rest'"
    using rest by (rule Cons.IH)
  show ?case
  proof (cases "matching p")
    case True
    with Cons.prems p rest obtain d' where d': "set_blend blend d = Inr d'" "ps' = JObj d' # rest'"
      by (auto simp: matching_def child_def entries_def dict_get_def split: sum.splits)
    from set_blend_effect [OF d'(1)] True p have "matching (JObj d')"
      by (simp add: matching_def child_def entries_def)
    with set_blend_effect [OF d'(1)] True p d' tl show ?thesis
      by simp
  next
    case False
    with Cons.prems p rest have "ps' = p # rest'"
      by (auto simp: matching_def child_def entries_def dict_get_def split: sum.splits)
    with False tl show ?thesis by simp
  qed
qed

lemma mutate_presets_returns:
  "(\<exists>ps'. mutate_presets blend ps = Inr ps') \<longleftrightarrow> (\<forall>p \<in> set ps. settable p)"
proof (induction ps)
  case Nil
  then show ?case by simp
next
  case (Cons p ps)
  show ?case
  proof (cases p)
    case (JObj d)
    have m: "matching p \<longleftrightarrow> dict_get d ''id'' = Some (JStr ''balanced-optics'')"
      using JObj by (simp add: matching_def child_def entries_def dict_get_def)
    show ?thesis
    proof (cases "matching p")
      case True
      then show ?thesis
        using Cons.IH JObj m set_blend_returns [of blend d]
        by (auto simp: settable_def split: sum.splits)
    next
      case False
      then show ?thesis
        using Cons.IH JObj m by (auto simp: settable_def split: sum.splits)
    qed
  qed (simp_all add: settable_def)
qed

lemma mutate_presets_no_match:
  "mutate_presets blend ps = Inr ps' \<Longrightarrow> \<forall>p \<in> set ps. \<not> matching p \<Longrightarrow> ps' = ps"
  using mutate_presets_effect [of blend ps ps']
  by (simp add: list_all2_conv_all_nth list_eq_iff_nth_eq)

lemma mutate_data_cases:
  assumes "mutate_data blend data = Inr data'"
  shows "(\<not> listed data \<and> data' = data) \<or>
         (\<exists>doc controls ps ps'. data = JObj doc \<and> map_of doc ''controls'' = Some (JObj controls) \<and>
            map_of controls ''presets'' = Some (JArr ps) \<and> mutate_presets blend ps = Inr ps' \<and>
            data' = JObj (AList.update ''controls''
                            (JObj (AList.update ''presets'' (JArr ps') controls)) doc))"
  using assms
  by (auto simp: mutate_data_def dict_get_def setitem_def listed_def child_def entries_def
      split: json.splits option.splits sum.splits if_splits)

lemma listed_presets:
  assumes "map_of doc ''controls'' = Some (JObj controls)"
    and "map_of controls ''presets'' = Some (JArr ps)"
  shows "listed (JObj doc)" and "presets_of (JObj doc) = ps"
  using assms by (simp_all add: listed_def presets_of_def child_def entries_def)

lemma listed_cases:
  "listed data \<Longrightarrow> \<exists>doc controls. data = JObj doc \<and> map_of doc ''controls'' = Some (JObj controls) \<and>
     map_of controls ''presets'' = Some (JArr (presets_of data))"
  by (auto simp: listed_def presets_of_def child_def entries_def split: option.splits json.splits)

lemma replaced_presets:
  assumes "map_of doc ''controls'' = Some (JObj controls)"
    and data'_def: "data' = JObj (AList.update ''controls''
                            (JObj (AList.update ''presets'' (JArr ps') controls)) doc)"
  shows "listed data'" and "presets_of data' = ps'"
    and "same_but ''controls'' (Some (JObj doc)) (Some data')"
    and "same_but ''presets'' (child (Some (JObj doc)) ''controls'') (child (Some data') ''controls'')"
  using assms(1)
  by (simp_all add: data'_def listed_def presets_of_def child_def entries_def same_but_def
        mapping_or_absent_def map_of_update_same without_update)

lemma mutate_data_effect:
  assumes "mutate_data blend data = Inr data'"
  shows "differs_in_blend_only data data'"
    and "listed data \<longleftrightarrow> listed data'"
    and "list_all2 (\<lambda>p p'. matching p \<longrightarrow> matching p' \<and> blend_of p' = Some (JFloat blend))
           (presets_of data) (presets_of data')"
    and "(\<forall>p \<in> set (presets_of data). \<not> matching p) \<longrightarrow> data' = data"
proof -
  from mutate_data_cases [OF assms]
  consider (same) "\<not> listed data" "data' = data"
    | (list) doc controls ps ps' where "data = JObj doc" "map_of doc ''controls'' = Some (JObj controls)"
        "map_of controls ''presets'' = Some (JArr ps)" "mutate_presets blend ps = Inr ps'"
        "data' = JObj (AList.update ''controls''
                            (JObj (AList.update ''presets'' (JArr ps') controls)) doc)"
    by blast
  then have "differs_in_blend_only data data' \<and> (listed data \<longleftrightarrow> listed data') \<and>
      list_all2 (\<lambda>p p'. matching p \<longrightarrow> matching p' \<and> blend_of p' = Some (JFloat blend))
           (presets_of data) (presets_of data') \<and>
      ((\<forall>p \<in> set (presets_of data). \<not> matching p) \<longrightarrow> data' = data)"
  proof cases
    case same
    then have "presets_of data = []"
      by (auto simp: listed_def presets_of_def split: option.splits json.splits)
    with same show ?thesis
      by (simp add: differs_in_blend_only_def)
  next
    case list
    note eff = mutate_presets_effect [OF list(4)]
    have l: "listed data" "presets_of data = ps"
      using listed_presets [OF list(2,3)] list(1) by simp_all
    have r: "listed data'" "presets_of data' = ps'"
        "same_but ''controls'' (Some data) (Some data')"
        "same_but ''presets'' (child (Some data) ''controls'') (child (Some data') ''controls'')"
      using replaced_presets [OF list(2,5)] list(1) by simp_all
    have a: "list_all2 (\<lambda>p p'. if matching p then blend_only p p' else p' = p) ps ps'"
      using eff by (rule list_all2_mono) (simp split: if_splits)
    have b: "list_all2 (\<lambda>p p'. matching p \<longrightarrow> matching p' \<and> blend_of p' = Some (JFloat blend)) ps ps'"
      using eff by (rule list_all2_mono) (simp split: if_splits)
    have c: "(\<forall>p \<in> set ps. \<not> matching p) \<longrightarrow> data' = data"
    proof
      assume "\<forall>p \<in> set ps. \<not> matching p"
      with list(4) have "ps' = ps" by (rule mutate_presets_no_match)
      with list(1,2,3,5) show "data' = data"
        by (simp add: update_triv)
    qed
    show ?thesis
      using l r a b c by (simp add: differs_in_blend_only_def)
  qed
  then show "differs_in_blend_only data data'"
    and "listed data \<longleftrightarrow> listed data'"
    and "list_all2 (\<lambda>p p'. matching p \<longrightarrow> matching p' \<and> blend_of p' = Some (JFloat blend))
           (presets_of data) (presets_of data')"
    and "(\<forall>p \<in> set (presets_of data). \<not> matching p) \<longrightarrow> data' = data"
    by simp_all
qed

lemma mutate_data_returns:
  assumes "listed data" and "\<forall>p \<in> set (presets_of data). settable p"
  shows "\<exists>data'. mutate_data blend data = Inr data'"
proof -
  from listed_cases [OF assms(1)] obtain doc controls where
    d: "data = JObj doc" "map_of doc ''controls'' = Some (JObj controls)"
       "map_of controls ''presets'' = Some (JArr (presets_of data))"
    by blast
  from assms(2) obtain ps' where "mutate_presets blend (presets_of data) = Inr ps'"
    using mutate_presets_returns [of blend "presets_of data"] by blast
  with d show ?thesis
    by (simp add: mutate_data_def dict_get_def)
qed

lemma mkstemp_fresh: "mkstemp fs dir ns = (Some p, rest) \<Longrightarrow> fs p = None"
  by (induction ns) (auto split: if_splits)

lemma mutate_manifest_cases:
  assumes "mutate_manifest P blend w = (Inr tmp, w')"
  shows "\<exists>data data' rest. files w (MANIFEST_PATH P) = Some (Doc data) \<and>
           mutate_data blend data = Inr data' \<and>
           mkstemp (files w) (tmpdir w) (names w) = (Some tmp, rest) \<and>
           w' = w\<lparr>files := (files w)(tmp \<mapsto> Doc data'), names := rest\<rparr>"
  using assms
  by (auto simp: mutate_manifest_def split: option.splits content.splits sum.splits prod.splits)

lemma mutate_manifest_raises:
  "mutate_manifest P blend w = (Inl e, w') \<Longrightarrow> files w' = files w \<and> exchanges w' = exchanges w"
  by (auto simp: mutate_manifest_def split: option.splits content.splits sum.splits prod.splits)

section \<open>One sweep point and the loop\<close>

lemma row_of_code:
  "row_of blend out =
     (case out of
        Inl e \<Rightarrow> None
      | Inr reply \<Rightarrow>
          (case expect_ok P reply of
             Inl e \<Rightarrow> None
           | Inr result \<Rightarrow>
               (case subscript (JObj result) ''metrics'' of
                  Inl e \<Rightarrow> None
                | Inr metrics \<Rightarrow>
                    (case subscript metrics ''indraIndex'' of
                       Inl e \<Rightarrow> None
                     | Inr i \<Rightarrow>
                         (case subscript metrics ''rimMean'' of
                            Inl e \<Rightarrow> None
                          | Inr r \<Rightarrow>
                              (case subscript metrics ''coherenceMean'' of
                                 Inl e \<Rightarrow> None
                               | Inr c \<Rightarrow> Some [JFloat blend, i, r, c]))))))"
proof (cases out)
  case (Inl e)
  then show ?thesis by (simp add: row_of_def)
next
  case (Inr reply)
  show ?thesis
  proof (cases reply)
    case (JObj d)
    have m: "map_of (filter (\<lambda>(k, v). k \<noteq> ''status'') d) ''metrics'' = map_of d ''metrics''"
      using filter_status [of "''status''" d "''metrics''"] by (simp add: dict_get_def)
    show ?thesis
      using Inr JObj m
      by (auto simp: row_of_def expect_ok_def subscript_def child_def entries_def dict_get_def
            Let_def
          split: option.splits json.splits sum.splits)
  qed (simp_all add: Inr row_of_def expect_ok_def child_def entries_def)
qed

lemma request_frame:
  "request P self method path body w = (out, w') \<Longrightarrow> files w' = files w"
  by (auto simp: request_def Let_def split: prod.splits)

lemma render_sends:
  assumes "''input'' \<in> fst ` set payload" and "''output'' \<in> fst ` set payload"
    and "render P self payload w = (res, payload', w')"
  shows "\<exists>req out. exchanges w' = exchanges w @ [(req, out)] \<and> files w' = files w \<and>
           res = (case out of Inl e \<Rightarrow> Inl e | Inr reply \<Rightarrow> expect_ok P reply)"
proof -
  let ?body = "snd (setdefault ''bitDepth'' (JInt 8) payload)"
  obtain out w1 where r: "request P self ''POST'' ''/render'' (Some ?body) w = (out, w1)"
    by (cases "request P self ''POST'' ''/render'' (Some ?body) w")
  from request_log [OF r] request_frame [OF r] obtain req where
    "exchanges w1 = exchanges w @ [(req, out)]" "files w1 = files w"
    by blast
  moreover have "w' = w1 \<and> res = (case out of Inl e \<Rightarrow> Inl e | Inr reply \<Rightarrow> expect_ok P reply)"
    using assms r by (auto simp: render_def require_keys_missing Let_def split: sum.splits)
  ultimately show ?thesis by blast
qed

lemma sweep_point_cases:
  assumes "sweep_point P client blend w rows = (raised, w', rows')"
  shows "files w' = files w \<and>
         (case raised of
            None \<Rightarrow> \<exists>ex row. exchanges w' = exchanges w @ [ex] \<and>
                      row_of blend (snd ex) = Some row \<and> rows' = rows @ [row]
          | Some e \<Rightarrow> rows' = rows \<and>
                      (exchanges w' = exchanges w \<or>
                       (\<exists>ex. exchanges w' = exchanges w @ [ex] \<and> row_of blend (snd ex) = None)))"
proof (cases "mutate_manifest P blend w")
  case (Pair m w1)
  show ?thesis
  proof (cases m)
    case (Inl e)
    with Pair assms mutate_manifest_raises [of P blend w e w1] show ?thesis
      by (auto simp: sweep_point_def)
  next
    case (Inr tmp)
    let ?payload = "[(''input'', JStr (INPUT_IMAGE P)),
                     (''output'', JStr (OUTPUT_DIR P @ ''/render_'' @ format_2f P blend @ ''.png'')),
                     (''manifest'', JStr tmp),
                     (''preset'', JStr ''balanced-optics'')]"
    from Pair Inr have mm: "mutate_manifest P blend w = (Inr tmp, w1)" by simp
    from mutate_manifest_cases [OF mm] obtain data' rest where
      w1: "mkstemp (files w) (tmpdir w) (names w) = (Some tmp, rest)"
          "w1 = w\<lparr>files := (files w)(tmp \<mapsto> Doc data'), names := rest\<rparr>"
      by blast
    have fresh: "files w tmp = None"
      using w1(1) by (rule mkstemp_fresh)
    obtain res payload' w2 where rr: "render P client ?payload w1 = (res, payload', w2)"
      by (cases "render P client ?payload w1") auto
    have "''input'' \<in> fst ` set ?payload" and "''output'' \<in> fst ` set ?payload"
      by simp_all
    from render_sends [OF this rr] obtain req out where
      w2: "exchanges w2 = exchanges w1 @ [(req, out)]" "files w2 = files w1"
          "res = (case out of Inl e \<Rightarrow> Inl e | Inr reply \<Rightarrow> expect_ok P reply)"
      by blast
    have un: "unlink True tmp (files w2) = Inr (files w)"
      using w2(2) w1(2) fresh by (auto simp: unlink_def)
    have ex: "exchanges w2 = exchanges w @ [(req, out)]"
      using w2(1) w1(2) by simp
    show ?thesis
      using assms mm rr un ex w2(3) row_of_code [of blend out P]
      by (auto simp: sweep_point_def Let_def split: sum.splits)
  qed
qed

lemma sweep_cases:
  "sweep P client bs w rows = (raised, w', rows') \<Longrightarrow>
     \<exists>k new added.
       k \<le> length bs \<and> exchanges w' = exchanges w @ new \<and> rows' = rows @ added \<and>
       length added = k \<and>
       map Some added = map2 (\<lambda>b ex. row_of b (snd ex)) (take k bs) new \<and>
       files w' = files w \<and>
       (case raised of
          None \<Rightarrow> k = length bs \<and> length new = k
        | Some e \<Rightarrow> k < length bs \<and> length new \<le> Suc k \<and>
                    (length new = Suc k \<longrightarrow> row_of (bs ! k) (snd (new ! k)) = None))"
proof (induction bs arbitrary: w rows)
  case Nil
  then show ?case by auto
next
  case (Cons b bs)
  obtain r1 w1 rows1 where sp: "sweep_point P client b w rows = (r1, w1, rows1)"
    by (cases "sweep_point P client b w rows") auto
  note one = sweep_point_cases [OF sp]
  show ?case
  proof (cases r1)
    case (Some e)
    with sp Cons.prems have res: "raised = Some e" "w' = w1" "rows' = rows1"
      by simp_all
    from one Some have rows1: "rows1 = rows" and f: "files w1 = files w"
      and ex: "exchanges w1 = exchanges w \<or>
               (\<exists>ex. exchanges w1 = exchanges w @ [ex] \<and> row_of b (snd ex) = None)"
      by simp_all
    from ex show ?thesis
    proof
      assume "exchanges w1 = exchanges w"
      with res rows1 f show ?thesis
        by (intro exI [of _ 0] exI [of _ "[]"]) simp
    next
      assume "\<exists>ex. exchanges w1 = exchanges w @ [ex] \<and> row_of b (snd ex) = None"
      then obtain ex where "exchanges w1 = exchanges w @ [ex]" "row_of b (snd ex) = None"
        by blast
      with res rows1 f show ?thesis
        by (intro exI [of _ 0] exI [of _ "[ex]"] exI [of _ "[]"]) simp
    qed
  next
    case None
    with sp Cons.prems have rest: "sweep P client bs w1 rows1 = (raised, w', rows')"
      by simp
    from one None obtain ex row where
      ex: "exchanges w1 = exchanges w @ [ex]" "row_of b (snd ex) = Some row"
          "rows1 = rows @ [row]" and f: "files w1 = files w"
      by auto
    from Cons.IH [OF rest] obtain k new added where
      ih: "k \<le> length bs" "exchanges w' = exchanges w1 @ new" "rows' = rows1 @ added"
          "length added = k"
          "map Some added = map2 (\<lambda>b ex. row_of b (snd ex)) (take k bs) new"
          "files w' = files w1"
          "case raised of
             None \<Rightarrow> k = length bs \<and> length new = k
           | Some e \<Rightarrow> k < length bs \<and> length new \<le> Suc k \<and>
                       (length new = Suc k \<longrightarrow> row_of (bs ! k) (snd (new ! k)) = None)"
      by blast
    show ?thesis
    proof (intro exI [of _ "Suc k"] exI [of _ "ex # new"] exI [of _ "row # added"] conjI)
      show "Suc k \<le> length (b # bs)" using ih(1) by simp
      show "exchanges w' = exchanges w @ ex # new" using ih(2) ex(1) by simp
      show "rows' = rows @ row # added" using ih(3) ex(3) by simp
      show "length (row # added) = Suc k" using ih(4) by simp
      show "map Some (row # added) =
              map2 (\<lambda>b ex. row_of b (snd ex)) (take (Suc k) (b # bs)) (ex # new)"
        using ih(5) ex(2) by simp
      show "files w' = files w" using ih(6) f by simp
      show "case raised of
              None \<Rightarrow> Suc k = length (b # bs) \<and> length (ex # new) = Suc k
            | Some e \<Rightarrow> Suc k < length (b # bs) \<and> length (ex # new) \<le> Suc (Suc k) \<and>
                (length (ex # new) = Suc (Suc k) \<longrightarrow>
                   row_of ((b # bs) ! Suc k) (snd ((ex # new) ! Suc k)) = None)"
        using ih(7) by (simp split: option.splits)
    qed
  qed
qed

lemma report_path_not_manifest: "OUTPUT_DIR P @ ''/blend_sweep.csv'' \<noteq> MANIFEST_PATH P"
  by (simp add: OUTPUT_DIR_def BASE_DIR_def MANIFEST_PATH_def)

lemma health_frame: "files (snd (health P self w)) = files w"
proof -
  obtain out w' where r: "request P self ''GET'' ''/health'' None w = (out, w')"
    by (cases "request P self ''GET'' ''/health'' None w")
  with request_frame [OF r] show ?thesis
    by (auto simp: health_def split: sum.splits json.splits)
qed

lemma report_files:
  "\<exists>rows. files (snd (report P client bs w)) =
            (files w)(OUTPUT_DIR P @ ''/blend_sweep.csv'' \<mapsto> Rows rows)"
proof -
  let ?csv = "OUTPUT_DIR P @ ''/blend_sweep.csv''"
  let ?w1 = "w\<lparr>files := (files w)(?csv \<mapsto> Rows [])\<rparr>"
  obtain r w2 rows2 where sw: "sweep P client bs ?w1 [header] = (r, w2, rows2)"
    by (cases "sweep P client bs ?w1 [header]") auto
  from sweep_cases [OF sw] have "files w2 = files ?w1"
    by blast
  with sw show ?thesis
    by (auto simp: report_def Let_def)
qed

lemma main_keeps_manifest: "files (snd (main P w)) (MANIFEST_PATH P) = files w (MANIFEST_PATH P)"
proof -
  have "files (snd (report P client (bs :: rat list) w1)) (MANIFEST_PATH P) = files w1 (MANIFEST_PATH P)"
    for client bs and w1 :: "'a world"
    using report_files [of P client bs w1] report_path_not_manifest [of P]
    by auto
  with health_frame [of P "init None" w] show ?thesis
    by (auto simp: main_def Let_def split: prod.splits sum.splits)
qed

lemmas studio_defs = studio_def serving_def scripted_def MANIFEST_PATH_def INPUT_IMAGE_def
  BASE_DIR_def OUTPUT_DIR_def temp_path_def sample_manifest_def

lemmas run_defs = report_def sweep_point_def mutate_manifest_def mutate_data_def set_blend_def
  setitem_def render_def expect_ok_def subscript_def unlink_def py_str_def ok_reply_def boom_def
  header_def

section \<open>The sweep's contract\<close>

text \<open>
  C5. Whether an iteration of the sweep raises or not: the temporary manifest that
  mutate_manifest wrote for it, at a path that did not exist before, exists no longer
  when the iteration is over, and the files are again what they were before it.
  Unlinking with missing_ok a path that does not exist is no error and changes nothing.
\<close>

theorem temporary_manifest_removed:
  assumes "sweep_point P client blend w rows = (raised, w', rows')"
  shows "(\<forall>tmp w1. mutate_manifest P blend w = (Inr tmp, w1) \<longrightarrow>
            files w tmp = None \<and> files w1 tmp \<noteq> None \<and> files w' tmp = None) \<and>
         files w' = files w \<and>
         (fs p = None \<longrightarrow> unlink True p fs = Inr fs)"
proof (intro conjI allI impI)
  show same: "files w' = files w"
    using sweep_point_cases [OF assms] by simp
  fix tmp w1
  assume mm: "mutate_manifest P blend w = (Inr tmp, w1)"
  from mutate_manifest_cases [OF mm] obtain data' rest where
    w1: "mkstemp (files w) (tmpdir w) (names w) = (Some tmp, rest)"
        "w1 = w\<lparr>files := (files w)(tmp \<mapsto> Doc data'), names := rest\<rparr>"
    by blast
  show "files w tmp = None"
    using w1(1) by (rule mkstemp_fresh)
  then show "files w' tmp = None"
    using same by simp
  show "files w1 tmp \<noteq> None"
    using w1(2) by simp
next
  assume "fs p = None"
  then show "unlink True p fs = Inr fs"
    by (simp add: unlink_def)
qed

text \<open>
  C5 on an example: the service is unreachable, the iteration raises URLError, and the
  temporary manifest it wrote is gone.
\<close>

theorem temporary_manifest_removed_witness:
  "fst (mutate_manifest scripted (3 / 10) (studio [])) = Inr ''/tmp/indra-manifest-k3x9.json'' \<and>
   fst (sweep_point scripted (init None) (3 / 10) (studio []) [header]) = Some URLError \<and>
   files (fst (snd (sweep_point scripted (init None) (3 / 10) (studio []) [header])))
     ''/tmp/indra-manifest-k3x9.json'' = None"
proof -
  let ?r = "sweep_point scripted (init None) (3 / 10) (studio []) [header]"
  let ?m = "mutate_manifest scripted (3 / 10) (studio [])"
  have run: "sweep_point scripted (init None) (3 / 10) (studio []) [header]
             = (fst ?r, fst (snd ?r), snd (snd ?r))"
    by simp
  have m: "fst ?m = Inr ''/tmp/indra-manifest-k3x9.json''"
    by (simp add: run_defs studio_defs demo_defs)
  then have mm: "?m = (Inr ''/tmp/indra-manifest-k3x9.json'', snd ?m)"
    by (metis prod.collapse)
  have e: "fst ?r = Some URLError"
    by (simp add: run_defs studio_defs demo_defs)
  from temporary_manifest_removed [OF run] mm
  have "files (fst (snd ?r)) ''/tmp/indra-manifest-k3x9.json'' = None"
    by blast
  with m e show ?thesis by simp
qed

text \<open>
  C6. When the block that writes the report is left, the report holds the header and
  then one row for each of the first k values of the sequence, in their order: the row
  that the reply to that value's request yields, which is the k-th request of the block.
  If nothing was raised, k is the length of the sequence and one request was sent for
  each value. If something was raised, the value at k has no row, nor has any later
  one, at most one request was sent for it and none after it, and when one was sent its
  reply yields no row.
\<close>

theorem sweep_report:
  assumes "report P client bs w = (raised, w')"
  shows "\<exists>k rows.
           k \<le> length bs \<and> length rows = k \<and>
           files w' (OUTPUT_DIR P @ ''/blend_sweep.csv'') = Some (Rows (header # rows)) \<and>
           map Some rows = map2 (\<lambda>b ex. row_of b (snd ex)) (take k bs)
                             (drop (length (exchanges w)) (exchanges w')) \<and>
           prefix (exchanges w) (exchanges w') \<and>
           (case raised of
              None \<Rightarrow> k = length bs \<and> length (exchanges w') = length (exchanges w) + k
            | Some e \<Rightarrow> k < length bs \<and> length (exchanges w') \<le> length (exchanges w) + Suc k \<and>
                (length (exchanges w') = length (exchanges w) + Suc k \<longrightarrow>
                   row_of (bs ! k) (snd (last (exchanges w'))) = None))"
proof -
  let ?csv = "OUTPUT_DIR P @ ''/blend_sweep.csv''"
  let ?w1 = "w\<lparr>files := (files w)(?csv \<mapsto> Rows [])\<rparr>"
  obtain r w2 rows2 where sw: "sweep P client bs ?w1 [header] = (r, w2, rows2)"
    by (cases "sweep P client bs ?w1 [header]") auto
  with assms have res: "raised = r" "w' = w2\<lparr>files := (files w2)(?csv \<mapsto> Rows rows2)\<rparr>"
    by (simp_all add: report_def Let_def)
  from sweep_cases [OF sw] obtain k new added where
    c: "k \<le> length bs" "exchanges w2 = exchanges ?w1 @ new" "rows2 = [header] @ added"
       "length added = k"
       "map Some added = map2 (\<lambda>b ex. row_of b (snd ex)) (take k bs) new"
       "case r of
          None \<Rightarrow> k = length bs \<and> length new = k
        | Some e \<Rightarrow> k < length bs \<and> length new \<le> Suc k \<and>
                    (length new = Suc k \<longrightarrow> row_of (bs ! k) (snd (new ! k)) = None)"
    by blast
  have ex: "exchanges w' = exchanges w @ new"
    using res(2) c(2) by simp
  have l: "length new = Suc k \<Longrightarrow> last (exchanges w') = new ! k"
    using ex by (cases new rule: rev_cases) (simp_all add: nth_append)
  show ?thesis
  proof (intro exI [of _ k] exI [of _ added] conjI)
    show "k \<le> length bs" by (rule c(1))
    show "length added = k" by (rule c(4))
    show "files w' ?csv = Some (Rows (header # added))"
      using res(2) c(3) by simp
    show "map Some added = map2 (\<lambda>b ex. row_of b (snd ex)) (take k bs)
                             (drop (length (exchanges w)) (exchanges w'))"
      using c(5) ex by simp
    show "prefix (exchanges w) (exchanges w')"
      using ex by simp
    show "case raised of
              None \<Rightarrow> k = length bs \<and> length (exchanges w') = length (exchanges w) + k
            | Some e \<Rightarrow> k < length bs \<and> length (exchanges w') \<le> length (exchanges w) + Suc k \<and>
                (length (exchanges w') = length (exchanges w) + Suc k \<longrightarrow>
                   row_of (bs ! k) (snd (last (exchanges w'))) = None)"
      using c(6) res(1) ex l by (auto split: option.splits)
  qed
qed

text \<open>
  C6 on an example: of three values the second is answered with an error. The sweep
  raises it, the report holds the header and the row of the first value, and the third
  reply of the service is never asked for.
\<close>

theorem sweep_report_witness:
  "fst (report scripted (init None) [3 / 10, 4 / 10, 5 / 10] (studio [ok_reply 3, boom, ok_reply 5]))
     = Some (RuntimeError ''boom'') \<and>
   files (snd (report scripted (init None) [3 / 10, 4 / 10, 5 / 10]
                 (studio [ok_reply 3, boom, ok_reply 5])))
     ''/repo/examples/artifacts/blend_sweep.csv''
     = Some (Rows [header, [JFloat (3 / 10), JInt 3, JInt 6, JInt 9]]) \<and>
   length (exchanges (snd (report scripted (init None) [3 / 10, 4 / 10, 5 / 10]
                             (studio [ok_reply 3, boom, ok_reply 5])))) = 2"
proof -
  let ?r = "report scripted (init None) [3 / 10, 4 / 10, 5 / 10] (studio [ok_reply 3, boom, ok_reply 5])"
  have run: "report scripted (init None) [3 / 10, 4 / 10, 5 / 10]
               (studio [ok_reply 3, boom, ok_reply 5]) = (fst ?r, snd ?r)"
    by simp
  have e: "fst ?r = Some (RuntimeError ''boom'')"
    by (simp add: run_defs studio_defs demo_defs)
  have n: "length (exchanges (snd ?r)) = 2"
    by (simp add: run_defs studio_defs demo_defs)
  have p: "OUTPUT_DIR scripted @ ''/blend_sweep.csv'' = ''/repo/examples/artifacts/blend_sweep.csv''"
    by (simp add: studio_defs)
  have r1: "row_of (3 / 10) (snd (exchanges (snd ?r) ! 0)) = Some [JFloat (3 / 10), JInt 3, JInt 6, JInt 9]"
    by (simp add: run_defs studio_defs demo_defs row_of_def child_def entries_def)
  from sweep_report [OF run] obtain k rows where
    k: "k \<le> 3" "length rows = k"
       "files (snd ?r) ''/repo/examples/artifacts/blend_sweep.csv'' = Some (Rows (header # rows))"
       "map Some rows = map2 (\<lambda>b ex. row_of b (snd ex)) (take k [3 / 10, 4 / 10, 5 / 10])
                          (drop (length (exchanges (studio [ok_reply 3, boom, ok_reply 5])))
                             (exchanges (snd ?r)))"
       "k < 3" "length (exchanges (snd ?r))
                 \<le> length (exchanges (studio [ok_reply 3, boom, ok_reply 5])) + Suc k"
    using e p by auto
  have z: "exchanges (studio [ok_reply 3, boom, ok_reply 5]) = []"
    by (simp add: studio_def serving_def)
  from k(6) n z have "1 \<le> k" by simp
  moreover have "k \<noteq> 2"
  proof
    assume k2: "k = 2"
    have "row_of (4 / 10) (snd (exchanges (snd ?r) ! 1)) = None"
      by (simp add: run_defs studio_defs demo_defs row_of_def child_def entries_def)
    moreover from k(4) k2 z n have "map Some rows =
        map2 (\<lambda>b ex. row_of b (snd ex)) [3 / 10, 4 / 10] (exchanges (snd ?r))"
      by (simp add: numeral_2_eq_2)
    then have "map Some rows ! 1 = row_of (4 / 10) (snd (exchanges (snd ?r) ! 1))"
      using n by (simp add: nth_zip)
    ultimately show False
      using k(2) k2 by simp
  qed
  ultimately have k1: "k = 1"
    using k(5) by arith
  with k(2) obtain row where rows: "rows = [row]"
    by (cases rows) auto
  from k(4) k1 z n rows have "Some row = row_of (3 / 10) (snd (exchanges (snd ?r) ! 0))"
    by (cases "exchanges (snd ?r)") auto
  with r1 rows k(3) e n show ?thesis
    by simp
qed

text \<open>
  C7. When mutate_manifest returns a path, the path did not exist before and now holds
  the derived document, and every other file, the original manifest among them, is as
  it was. The derived document is the original, or differs from it at most in the
  presets under controls, where a preset whose id matches differs at most in its blend
  and every other preset is unchanged; when no preset's id matches it is the original.
  The whole program leaves the original manifest as it was, too.
\<close>

theorem derived_manifest_frame:
  "(mutate_manifest P blend w = (Inr tmp, w') \<longrightarrow>
      (\<exists>data data'.
         files w (MANIFEST_PATH P) = Some (Doc data) \<and> files w tmp = None \<and>
         files w' = (files w)(tmp \<mapsto> Doc data') \<and>
         files w' (MANIFEST_PATH P) = Some (Doc data) \<and>
         differs_in_blend_only data data' \<and>
         ((\<forall>p \<in> set (presets_of data). \<not> matching p) \<longrightarrow> data' = data))) \<and>
   files (snd (main P w)) (MANIFEST_PATH P) = files w (MANIFEST_PATH P)"
proof (intro conjI impI)
  assume run: "mutate_manifest P blend w = (Inr tmp, w')"
  from mutate_manifest_cases [OF run] obtain data data' rest where
    m: "files w (MANIFEST_PATH P) = Some (Doc data)" "mutate_data blend data = Inr data'"
       "mkstemp (files w) (tmpdir w) (names w) = (Some tmp, rest)"
       "w' = w\<lparr>files := (files w)(tmp \<mapsto> Doc data'), names := rest\<rparr>"
    by blast
  have fresh: "files w tmp = None"
    using m(3) by (rule mkstemp_fresh)
  with m(1) have "tmp \<noteq> MANIFEST_PATH P"
    by auto
  with m(1,4) have "files w' (MANIFEST_PATH P) = Some (Doc data)"
    by simp
  with m fresh mutate_data_effect(1,4) [OF m(2)]
  show "\<exists>data data'.
         files w (MANIFEST_PATH P) = Some (Doc data) \<and> files w tmp = None \<and>
         files w' = (files w)(tmp \<mapsto> Doc data') \<and>
         files w' (MANIFEST_PATH P) = Some (Doc data) \<and>
         differs_in_blend_only data data' \<and>
         ((\<forall>p \<in> set (presets_of data). \<not> matching p) \<longrightarrow> data' = data)"
    by auto
next
  show "files (snd (main P w)) (MANIFEST_PATH P) = files w (MANIFEST_PATH P)"
    by (rule main_keeps_manifest)
qed

text \<open>
  C7 on the sample manifest: the original stays on disk, and the derived document
  differs from it in the blends of its first and third presets only.
\<close>

theorem derived_manifest_frame_witness:
  "fst (mutate_manifest scripted (3 / 10) (studio [])) = Inr ''/tmp/indra-manifest-k3x9.json'' \<and>
   files (snd (mutate_manifest scripted (3 / 10) (studio []))) ''/repo/public/sample-manifest.json''
     = Some (Doc sample_manifest) \<and>
   (\<exists>data'. files (snd (mutate_manifest scripted (3 / 10) (studio [])))
               ''/tmp/indra-manifest-k3x9.json'' = Some (Doc data') \<and>
            data' \<noteq> sample_manifest \<and> differs_in_blend_only sample_manifest data')"
proof -
  let ?m = "mutate_manifest scripted (3 / 10) (studio [])"
  let ?tmp = "''/tmp/indra-manifest-k3x9.json''"
  have m: "fst ?m = Inr ?tmp"
    by (simp add: run_defs studio_defs demo_defs)
  then have run: "?m = (Inr ?tmp, snd ?m)"
    by (metis prod.collapse)
  have p: "MANIFEST_PATH scripted = ''/repo/public/sample-manifest.json''"
    by (simp add: studio_defs)
  have o: "files (studio []) ''/repo/public/sample-manifest.json'' = Some (Doc sample_manifest)"
    by (simp add: studio_def serving_def scripted_def MANIFEST_PATH_def INPUT_IMAGE_def BASE_DIR_def)
  from derived_manifest_frame [of scripted "3 / 10" "studio []" ?tmp "snd ?m"] run p o
  obtain data' where
    d: "files (snd ?m) = (files (studio []))(?tmp \<mapsto> Doc data')"
       "files (snd ?m) ''/repo/public/sample-manifest.json'' = Some (Doc sample_manifest)"
       "differs_in_blend_only sample_manifest data'"
    by auto
  have "files (snd ?m) ?tmp \<noteq> Some (Doc sample_manifest)"
    by (simp add: run_defs studio_defs demo_defs)
  with d have "files (snd ?m) ?tmp = Some (Doc data') \<and> data' \<noteq> sample_manifest"
    by auto
  with m d show ?thesis
    by blast
qed

text \<open>
  C10. On a manifest whose presets are a list of mappings in which every preset of the
  id has panels, and a compositor under them, that are mappings or absent,
  mutate_manifest returns, once a temporary name is free, and the document it writes
  has the same presets in the same places, where every preset of the id, not the first
  alone, holds the blend under panels and compositor, both of which exist by then.
\<close>

theorem every_matching_preset_blended:
  assumes "files w (MANIFEST_PATH P) = Some (Doc data)"
    and "listed data" and "\<forall>p \<in> set (presets_of data). settable p"
    and "mkstemp (files w) (tmpdir w) (names w) = (Some tmp, rest)"
  shows "\<exists>data'. mutate_manifest P blend w =
                    (Inr tmp, w\<lparr>files := (files w)(tmp \<mapsto> Doc data'), names := rest\<rparr>) \<and>
           list_all2 (\<lambda>p p'. matching p \<longrightarrow> matching p' \<and> blend_of p' = Some (JFloat blend))
             (presets_of data) (presets_of data')"
proof -
  from mutate_data_returns [OF assms(2,3)] obtain data' where
    d: "mutate_data blend data = Inr data'"
    by blast
  have "mutate_manifest P blend w =
          (Inr tmp, w\<lparr>files := (files w)(tmp \<mapsto> Doc data'), names := rest\<rparr>)"
    using assms(1,4) d by (simp add: mutate_manifest_def)
  with mutate_data_effect(3) [OF d] show ?thesis
    by blast
qed

text \<open>
  C10 on the sample manifest: both presets of the id get the blend, the first from no
  panels at all and the third from panels without a compositor, and the preset between
  them keeps its own.
\<close>

theorem every_matching_preset_blended_witness:
  "listed sample_manifest \<and> map settable (presets_of sample_manifest) = [True, True, True] \<and>
   map matching (presets_of sample_manifest) = [True, False, True] \<and>
   map blend_of (presets_of sample_manifest) = [None, Some (JFloat (1 / 2)), None] \<and>
   (\<exists>data'. mutate_manifest scripted (3 / 10) (studio []) =
       (Inr ''/tmp/indra-manifest-k3x9.json'',
        (studio [])\<lparr>files := (files (studio []))(''/tmp/indra-manifest-k3x9.json'' \<mapsto> Doc data'),
                     names := [''p0q1'']\<rparr>) \<and>
      map blend_of (presets_of data')
        = [Some (JFloat (3 / 10)), Some (JFloat (1 / 2)), Some (JFloat (3 / 10))])"
proof -
  let ?tmp = "''/tmp/indra-manifest-k3x9.json''"
  have ps: "presets_of sample_manifest =
      [JObj [(''id'', JStr ''balanced-optics'')],
       JObj [(''id'', JStr ''night''),
             (''panels'', JObj [(''compositor'', JObj [(''blend'', JFloat (1 / 2))])])],
       JObj [(''id'', JStr ''balanced-optics''), (''panels'', JObj [(''rim'', JInt 2)])]]"
    by (simp add: presets_of_def child_def entries_def sample_manifest_def)
  have h1: "files (studio []) (MANIFEST_PATH scripted) = Some (Doc sample_manifest)"
    by (simp add: studio_def serving_def scripted_def MANIFEST_PATH_def INPUT_IMAGE_def BASE_DIR_def)
  have h2: "listed sample_manifest"
    by (simp add: listed_def child_def entries_def sample_manifest_def)
  have s: "map settable (presets_of sample_manifest) = [True, True, True]"
    by (simp add: ps settable_def matching_def child_def entries_def mapping_or_absent_def)
  have h3: "\<forall>p \<in> set (presets_of sample_manifest). settable p"
  proof
    fix p assume "p \<in> set (presets_of sample_manifest)"
    then have "settable p \<in> set (map settable (presets_of sample_manifest))"
      by simp
    then show "settable p"
      by (simp only: s) simp
  qed
  have h4: "mkstemp (files (studio [])) (tmpdir (studio [])) (names (studio []))
            = (Some ?tmp, [''p0q1''])"
    by (simp add: studio_defs)
  have m: "map matching (presets_of sample_manifest) = [True, False, True]"
    by (simp add: ps matching_def child_def entries_def)
  have b: "map blend_of (presets_of sample_manifest) = [None, Some (JFloat (1 / 2)), None]"
    by (simp add: ps blend_of_def child_def entries_def)
  from every_matching_preset_blended [OF h1 h2 h3 h4, of "3 / 10"] obtain data' where
    d: "mutate_manifest scripted (3 / 10) (studio []) =
          (Inr ?tmp, (studio [])\<lparr>files := (files (studio []))(?tmp \<mapsto> Doc data'),
                                  names := [''p0q1'']\<rparr>)"
       "list_all2 (\<lambda>p p'. matching p \<longrightarrow> matching p' \<and> blend_of p' = Some (JFloat (3 / 10)))
          (presets_of sample_manifest) (presets_of data')"
    by blast
  have "files (snd (mutate_manifest scripted (3 / 10) (studio []))) ?tmp = Some (Doc data')"
    using d(1) by simp
  moreover have "\<exists>x. files (snd (mutate_manifest scripted (3 / 10) (studio []))) ?tmp = Some (Doc x) \<and>
      map blend_of (presets_of x)
        = [Some (JFloat (3 / 10)), Some (JFloat (1 / 2)), Some (JFloat (3 / 10))]"
    by (simp add: run_defs studio_defs demo_defs presets_of_def blend_of_def child_def entries_def)
  ultimately have "map blend_of (presets_of data')
        = [Some (JFloat (3 / 10)), Some (JFloat (1 / 2)), Some (JFloat (3 / 10))]"
    by auto
  with d(1) have "\<exists>data'. mutate_manifest scripted (3 / 10) (studio []) =
       (Inr ?tmp, (studio [])\<lparr>files := (files (studio []))(?tmp \<mapsto> Doc data'),
                               names := [''p0q1'']\<rparr>) \<and>
      map blend_of (presets_of data')
        = [Some (JFloat (3 / 10)), Some (JFloat (1 / 2)), Some (JFloat (3 / 10))]"
    by (intro exI [of _ data'] conjI)
  with h2 s m b show ?thesis
    by (intro conjI) assumption+
qed

end
